theory Spec2Isabelle
  imports Complex_Main "HOL-Library.Char_ord" "HOL-Library.List_Lexorder"
begin

section \<open>Values of the expression language\<close>

text \<open>
  The expressions of \<^verbatim>\<open>src/src/parse.js\<close> are untyped. A number is an IEEE 754
  double: \<open>Num q\<close> is the finite double whose value is the rational \<open>q\<close>, the other
  constructors are the values that are no rational. Objects and functions are
  references into a store.
\<close>

datatype jsnum = NaN | PosInfinity | NegInfinity | NegZero | Num rat

datatype val =
    VUndefined
  | VNull
  | VBool bool
  | VNum jsnum
  | VStr string
  | VObj nat
  | VFun nat

section \<open>The lexer (parse.js, lines 5--216)\<close>

text \<open>
  Every exception of the source is \<^verbatim>\<open>new Error(message)\<close>; the constructors below name
  the messages. \<open>TypeError\<close>, \<open>ReferenceError\<close> and \<open>SyntaxError\<close> are raised by the
  JavaScript engine itself, \<open>Thrown\<close> by a function of the user. \<open>OutsideModel\<close> and
  \<open>OutOfFuel\<close> are not exceptions of the program: they mark an input the model does
  not cover (a unicode escape above code unit 255 in a string literal, since a character here is
  eight bits wide) and a used-up call budget of the parser.
\<close>

datatype error =
    InvalidExponent
  | InvalidUnicodeEscape
  | UnmatchedQuote
  | UnexpectedNextCharacter char
  | UnexpectedExpected "string option"
  | UnexpectedTerminates
  | NotAnIdentifier string
  | DisallowedField
  | ReferencingWindow
  | ReferencingFunction
  | ReferencingObject
  | ReferencingDOMNode
  | ReferencingCallApplyBind
  | UnableToGetLeftContext
  | UnknownASTNodeType
  | NotCorrectlyRegistering
  | TypeError
  | ReferenceError
  | SyntaxError
  | Thrown val
  | OutsideModel
  | OutOfFuel

record token =
  tok_text :: string
  tok_value :: val
  tok_identifier :: bool

definition isNumber :: "string option \<Rightarrow> bool" where
  "isNumber ch = (case ch of None \<Rightarrow> False | Some s \<Rightarrow> ''0'' \<le> s \<and> s \<le> ''9'')"

definition isExpOperator :: "string option \<Rightarrow> bool" where
  "isExpOperator ch = (ch = Some ''-'' \<or> ch = Some ''+'' \<or> isNumber ch)"

definition isIdentifier :: "string option \<Rightarrow> bool" where
  "isIdentifier ch = (case ch of None \<Rightarrow> False | Some s \<Rightarrow>
     (''a'' \<le> s \<and> s \<le> ''z'') \<or> (''A'' \<le> s \<and> s \<le> ''Z'') \<or> s = ''_'' \<or> s = ''$'')"

definition isWhiteSpace :: "string option \<Rightarrow> bool" where
  "isWhiteSpace ch = (ch = Some '' '' \<or> ch = Some [CHR 0x0D] \<or> ch = Some [CHR 0x09] \<or>
     ch = Some [CHR 0x0A] \<or> ch = Some [CHR 0x0B] \<or> ch = Some [CHR 0xA0])"

definition ESCAPE_MAP :: "char \<Rightarrow> char option" where
  "ESCAPE_MAP = map_of
     [(CHR ''n'', CHR 0x0A), (CHR ''f'', CHR 0x0C), (CHR ''r'', CHR 0x0D), (CHR ''t'', CHR 0x09),
      (CHR ''v'', CHR 0x0B), (CHR 0x27, CHR 0x27), (CHR 0x22, CHR 0x22)]"

definition OperatorsMap :: "string list" where
  "OperatorsMap = [''+'', ''!'', ''-'', ''*'', ''/'', ''%'', ''='', ''=='', ''!='', ''==='', ''!=='',
     ''<'', ''>'', ''<='', ''>='', ''&&'', ''||'', ''|'']"

definition truthy_string :: "string option \<Rightarrow> bool" where
  "truthy_string s = (case s of None \<Rightarrow> False | Some t \<Rightarrow> t \<noteq> [])"

definition peek :: "string \<Rightarrow> nat \<Rightarrow> nat \<Rightarrow> string option" where
  "peek inp index offset =
     (if int index > int (length inp) - int offset then None
      else Some (take offset (drop (index + 1) inp)))"

definition toLowerCase :: "char \<Rightarrow> char" where
  "toLowerCase c =
     (let n = (of_char c :: nat)
      in if (65 \<le> n \<and> n \<le> 90) \<or> (192 \<le> n \<and> n \<le> 222 \<and> n \<noteq> 215)
         then char_of (n + 32) else c)"

definition digit_val :: "char \<Rightarrow> int" where
  "digit_val c = of_char c - 48"

definition is_digits :: "string \<Rightarrow> bool" where
  "is_digits s = list_all (\<lambda>c. CHR ''0'' \<le> c \<and> c \<le> CHR ''9'') s"

definition digits_val :: "string \<Rightarrow> int" where
  "digits_val s = foldl (\<lambda>n c. 10 * n + digit_val c) 0 s"

definition decimal_exponent :: "string \<Rightarrow> int option" where
  "decimal_exponent s =
     (case s of
        [] \<Rightarrow> None
      | c # r \<Rightarrow>
          if c = CHR ''+'' then (if r \<noteq> [] \<and> is_digits r then Some (digits_val r) else None)
          else if c = CHR ''-'' then (if r \<noteq> [] \<and> is_digits r then Some (- digits_val r) else None)
          else if is_digits s then Some (digits_val s) else None)"

definition decimal_mantissa :: "string \<Rightarrow> rat option" where
  "decimal_mantissa s =
     (let ip = takeWhile (\<lambda>c. c \<noteq> CHR ''.'') s;
          r = dropWhile (\<lambda>c. c \<noteq> CHR ''.'') s;
          fp = (if r = [] then [] else tl r)
      in if is_digits ip \<and> is_digits fp \<and> (ip \<noteq> [] \<or> fp \<noteq> [])
         then Some (of_int (digits_val ip) + of_int (digits_val fp) / 10 ^ length fp)
         else None)"

text \<open>
  \<^verbatim>\<open>_.toNumber\<close> of a string is the engine's conversion of the string to a double: the
  value of the decimal spelling, rounded to the nearest double, a tie going to the even
  significand, and to \<^verbatim>\<open>Infinity\<close> from \<open>2 ^ 1024\<close> on; \<^verbatim>\<open>NaN\<close> when the spelling is
  no decimal literal. \<open>round_double\<close> is that rounding of a rational that is not
  negative: \<open>floor_log2 q\<close> is the exponent of \<open>q\<close>, the spacing of the doubles around
  \<open>q\<close> is \<open>2 ^ (e - 52)\<close>, and \<open>2 ^ (- 1074)\<close> below \<open>2 ^ (- 1022)\<close>.
\<close>

definition pow2 :: "int \<Rightarrow> rat" where
  "pow2 k = (if k < 0 then 1 / 2 ^ nat (- k) else 2 ^ nat k)"

function bit_length :: "int \<Rightarrow> int" where
  "bit_length n = (if n \<le> 0 then 0 else 1 + bit_length (n div 2))"
  by pat_completeness auto
termination
  by (relation "measure nat") auto

declare bit_length.simps [simp del]

definition floor_log2 :: "rat \<Rightarrow> int" where
  "floor_log2 q =
     (let d = bit_length (fst (quotient_of q)) - bit_length (snd (quotient_of q))
      in if pow2 d \<le> q then d else d - 1)"

definition round_half_even :: "rat \<Rightarrow> int" where
  "round_half_even k =
     (let f = \<lfloor>k\<rfloor>; d = k - of_int f
      in if d < 1 / 2 then f else if 1 / 2 < d then f + 1 else if even f then f else f + 1)"

definition round_double :: "rat \<Rightarrow> jsnum" where
  "round_double q =
     (if q = 0 then Num 0
      else let e = max (floor_log2 q) (- 1022);
               quantum = pow2 (e - 52);
               r = of_int (round_half_even (q / quantum)) * quantum
           in if pow2 1024 \<le> r then PosInfinity else Num r)"

definition toNumber :: "string \<Rightarrow> jsnum" where
  "toNumber s =
     (let m = takeWhile (\<lambda>c. c \<noteq> CHR ''e'') s;
          r = dropWhile (\<lambda>c. c \<noteq> CHR ''e'') s
      in case decimal_mantissa m of
           None \<Rightarrow> NaN
         | Some q \<Rightarrow>
             if r = [] then round_double q
             else (case decimal_exponent (tl r) of
                     None \<Rightarrow> NaN
                   | Some k \<Rightarrow>
                       round_double (if k < 0 then q / 10 ^ nat (- k) else q * 10 ^ nat k)))"


function readNumber_loop :: "string \<Rightarrow> nat \<Rightarrow> string \<Rightarrow> error + (nat \<times> string)" where
  "readNumber_loop inp index number =
     (if index < length inp then
        let ch = toLowerCase (inp ! index)
        in if ch = CHR ''.'' \<or> isNumber (Some [ch])
           then readNumber_loop inp (index + 1) (number @ [ch])
           else
             let nextCh = peek inp index 1;
                 prevCh = (if number = [] then None else Some [last number])
             in if ch = CHR ''e'' \<and> isExpOperator nextCh
                then readNumber_loop inp (index + 1) (number @ [ch])
                else if prevCh = Some ''e'' \<and> isExpOperator (Some [ch]) \<and>
                        truthy_string nextCh \<and> isNumber nextCh
                then readNumber_loop inp (index + 1) (number @ [ch])
                else if isExpOperator (Some [ch]) \<and> prevCh = Some ''e'' \<and>
                        (\<not> truthy_string nextCh \<or> \<not> isNumber nextCh)
                then Inl InvalidExponent
                else Inr (index, number)
      else Inr (index, number))"
  by pat_completeness auto
termination
  by (relation "measure (\<lambda>(inp, index, number). length inp - index)") auto

declare readNumber_loop.simps [simp del]


definition readNumber :: "string \<Rightarrow> nat \<Rightarrow> token list \<Rightarrow> error + (nat \<times> token list)" where
  "readNumber inp index tokens =
     (case readNumber_loop inp index [] of
        Inl e \<Rightarrow> Inl e
      | Inr (index', number) \<Rightarrow>
          Inr (index', tokens @
            [\<lparr>tok_text = number, tok_value = VNum (toNumber number), tok_identifier = False\<rparr>]))"

definition is_hex4 :: "string \<Rightarrow> bool" where
  "is_hex4 h = (length h = 4 \<and> list_all (\<lambda>c. (CHR ''0'' \<le> c \<and> c \<le> CHR ''9'') \<or>
      (CHR ''a'' \<le> c \<and> c \<le> CHR ''f'') \<or> (CHR ''A'' \<le> c \<and> c \<le> CHR ''F'')) h)"

definition hex_val :: "char \<Rightarrow> nat" where
  "hex_val c = (if CHR ''0'' \<le> c \<and> c \<le> CHR ''9'' then of_char c - 48
                else if CHR ''a'' \<le> c \<and> c \<le> CHR ''f'' then of_char c - 87
                else of_char c - 55)"

definition parseInt16 :: "string \<Rightarrow> nat" where
  "parseInt16 h = foldl (\<lambda>n c. 16 * n + hex_val c) 0 h"

function readString_loop ::
  "string \<Rightarrow> char \<Rightarrow> nat \<Rightarrow> string \<Rightarrow> string \<Rightarrow> bool \<Rightarrow> error + (nat \<times> token)" where
  "readString_loop inp quote index str rawString escape =
     (if index < length inp then
        let ch = inp ! index; rawString' = rawString @ [ch]
        in if escape then
             if ch = CHR ''u'' then
               (case peek inp index 4 of
                  None \<Rightarrow> Inl InvalidUnicodeEscape
                | Some hex \<Rightarrow>
                    if \<not> is_hex4 hex then Inl InvalidUnicodeEscape
                    else if parseInt16 hex \<ge> 256 then Inl OutsideModel
                    else readString_loop inp quote (index + 4 + 1)
                           (str @ [char_of (parseInt16 hex)]) rawString' False)
             else
               readString_loop inp quote (index + 1)
                 (str @ [case ESCAPE_MAP ch of Some replacement \<Rightarrow> replacement | None \<Rightarrow> ch])
                 rawString' False
           else if ch = quote then
             Inr (index + 1,
               \<lparr>tok_text = rawString', tok_value = VStr str, tok_identifier = False\<rparr>)
           else if ch = CHR 0x5C then
             readString_loop inp quote (index + 1) str rawString' True
           else readString_loop inp quote (index + 1) (str @ [ch]) rawString' False
      else Inl UnmatchedQuote)"
  by pat_completeness auto
termination
  by (relation "measure (\<lambda>(inp, quote, index, str, rawString, escape). length inp - index)") auto

declare readString_loop.simps [simp del]

definition readString ::
  "string \<Rightarrow> char \<Rightarrow> nat \<Rightarrow> token list \<Rightarrow> error + (nat \<times> token list)" where
  "readString inp quote index tokens =
     (case readString_loop inp quote (index + 1) [] [] False of
        Inl e \<Rightarrow> Inl e
      | Inr (index', tok) \<Rightarrow> Inr (index', tokens @ [tok]))"

function readIdentifier_loop :: "string \<Rightarrow> nat \<Rightarrow> string \<Rightarrow> nat \<times> string" where
  "readIdentifier_loop inp index ident =
     (if index < length inp then
        let ch = inp ! index
        in if isIdentifier (Some [ch]) \<or> isNumber (Some [ch])
           then readIdentifier_loop inp (index + 1) (ident @ [ch])
           else (index, ident)
      else (index, ident))"
  by pat_completeness auto
termination
  by (relation "measure (\<lambda>(inp, index, ident). length inp - index)") auto

declare readIdentifier_loop.simps [simp del]

definition readIdentifier :: "string \<Rightarrow> nat \<Rightarrow> token list \<Rightarrow> nat \<times> token list" where
  "readIdentifier inp index tokens =
     (case readIdentifier_loop inp index [] of
        (index', ident) \<Rightarrow>
          (index', tokens @ [\<lparr>tok_text = ident, tok_value = VUndefined, tok_identifier = True\<rparr>]))"

definition findLast :: "('a \<Rightarrow> bool) \<Rightarrow> 'a list \<Rightarrow> 'a option" where
  "findLast P xs = List.find P (rev xs)"

definition lex_step :: "string \<Rightarrow> nat \<Rightarrow> token list \<Rightarrow> error + (nat \<times> token list)" where
  "lex_step inp index tokens =
     (let ch = inp ! index
      in if isNumber (Some [ch]) \<or> (ch = CHR ''.'' \<and> isNumber (peek inp index 1))
         then readNumber inp index tokens
         else if ch \<in> set [CHR 0x27, CHR 0x22] then readString inp ch index tokens
         else if ch \<in> set ''[],{}:.()?;''
         then Inr (index + 1,
                tokens @ [\<lparr>tok_text = [ch], tok_value = VUndefined, tok_identifier = False\<rparr>])
         else if isIdentifier (Some [ch]) then Inr (readIdentifier inp index tokens)
         else if isWhiteSpace (Some [ch]) then Inr (index + 1, tokens)
         else
           let nextStrings =
                 [ch] # concat (map (\<lambda>offset.
                    case peek inp index offset of
                      None \<Rightarrow> []
                    | Some nextChars \<Rightarrow> if nextChars \<noteq> [] then [ch # nextChars] else [])
                  [1, 2])
           in case findLast (\<lambda>chars. chars \<in> set OperatorsMap) nextStrings of
                Some findOp \<Rightarrow>
                  Inr (index + length findOp,
                    tokens @ [\<lparr>tok_text = findOp, tok_value = VUndefined, tok_identifier = False\<rparr>])
              | None \<Rightarrow> Inl (UnexpectedNextCharacter ch))"


lemma readNumber_loop_index: "readNumber_loop inp index number = Inr (i, n) \<Longrightarrow> index \<le> i"
proof (induction inp index number rule: readNumber_loop.induct)
  case (1 inp index number)
  note IH = "1.IH" and prems = "1.prems"
  define ch where "ch = toLowerCase (inp ! index)"
  define nextCh where "nextCh = peek inp index 1"
  define prevCh where "prevCh = (if number = [] then None else Some [last number])"
  define again where "again \<longleftrightarrow> index < length inp \<and>
     (ch = CHR ''.'' \<or> isNumber (Some [ch]) \<or> (ch = CHR ''e'' \<and> isExpOperator nextCh) \<or>
      (prevCh = Some ''e'' \<and> isExpOperator (Some [ch]) \<and> truthy_string nextCh \<and> isNumber nextCh))"
  have rec: "index + 1 \<le> i"
    if a: "again" and r: "readNumber_loop inp (index + 1) (number @ [ch]) = Inr (i, n)"
  proof -
    from a have lt: "index < length inp" by (simp add: again_def)
    note r' = r [unfolded ch_def]
    show ?thesis
    proof (cases "ch = CHR ''.'' \<or> isNumber (Some [ch])")
      case True
      then show ?thesis using IH(1) [OF lt refl _ r'] by (simp add: ch_def)
    next
      case c1: False
      show ?thesis
      proof (cases "ch = CHR ''e'' \<and> isExpOperator nextCh")
        case True
        with c1 show ?thesis using IH(2) [OF lt refl _ refl refl _ r']
          by (simp add: ch_def nextCh_def)
      next
        case c2: False
        with c1 a have "prevCh = Some ''e'' \<and> isExpOperator (Some [ch]) \<and>
            truthy_string nextCh \<and> isNumber nextCh"
          by (simp add: again_def)
        with c1 c2 show ?thesis using IH(3) [OF lt refl _ refl refl _ _ r']
          by (simp add: ch_def nextCh_def prevCh_def)
      qed
    qed
  qed
  have "(again \<and> readNumber_loop inp index number =
            readNumber_loop inp (index + 1) (number @ [ch]))
      \<or> readNumber_loop inp index number = Inl InvalidExponent
      \<or> readNumber_loop inp index number = Inr (index, number)"
    unfolding readNumber_loop.simps [of inp index number] again_def
    by (simp add: Let_def ch_def nextCh_def prevCh_def)
  with prems rec show ?case by auto
qed

lemma isNumber_char: "isNumber (Some [c]) = (CHR ''0'' \<le> c \<and> c \<le> CHR ''9'')"
  by (auto simp add: isNumber_def)

lemma toLowerCase_digit: "isNumber (Some [c]) \<Longrightarrow> toLowerCase c = c"
  by (simp add: isNumber_char toLowerCase_def less_eq_char_def Let_def)

lemma toLowerCase_dot: "toLowerCase (CHR ''.'') = CHR ''.''"
  by (simp add: toLowerCase_def)

lemma readNumber_loop_progress:
  assumes "index < length inp"
    and "isNumber (Some [inp ! index]) \<or> inp ! index = CHR ''.''"
    and "readNumber_loop inp index number = Inr (i, n)"
  shows "index < i"
proof -
  from assms(2) have ch: "toLowerCase (inp ! index) = inp ! index"
    using toLowerCase_digit toLowerCase_dot by auto
  from assms have "readNumber_loop inp (index + 1) (number @ [inp ! index]) = Inr (i, n)"
    by (subst (asm) readNumber_loop.simps) (auto simp: ch Let_def)
  then have "index + 1 \<le> i" by (rule readNumber_loop_index)
  then show ?thesis by simp
qed

lemma readString_loop_index:
  "readString_loop inp quote index str rawString escape = Inr (i, tok) \<Longrightarrow> index \<le> i"
proof (induction inp quote index str rawString escape rule: readString_loop.induct)
  case (1 inp quote index str rawString escape)
  note IH = "1.IH" and prems = "1.prems"
  note eq = prems [unfolded readString_loop.simps [of inp quote index str rawString escape]]
  show ?case
  proof (cases "index < length inp")
    case False
    with eq show ?thesis by simp
  next
    case lt: True
    note IH1 = IH(1) [OF lt refl refl] and IH2 = IH(2) [OF lt refl refl]
      and IH3 = IH(3) [OF lt refl refl] and IH4 = IH(4) [OF lt refl refl]
    show ?thesis
    proof (cases escape)
      case esc: True
      show ?thesis
      proof (cases "inp ! index = CHR ''u''")
        case u: True
        show ?thesis
        proof (cases "peek inp index 4")
          case None
          with eq lt esc u show ?thesis by (simp add: Let_def)
        next
          case (Some hex)
          show ?thesis
          proof (cases "is_hex4 hex \<and> \<not> 256 \<le> parseInt16 hex")
            case False
            with eq lt esc u Some show ?thesis by (auto simp: Let_def split: if_splits)
          next
            case True
            with eq lt esc u Some
            have "readString_loop inp quote (index + 4 + 1) (str @ [char_of (parseInt16 hex)])
                (rawString @ [inp ! index]) False = Inr (i, tok)"
              by (simp add: Let_def)
            with IH1 [OF esc u Some] True have "index + 4 + 1 \<le> i" by simp
            then show ?thesis by simp
          qed
        qed
      next
        case nu: False
        with eq lt esc
        have "readString_loop inp quote (index + 1)
            (str @ [case ESCAPE_MAP (inp ! index) of Some replacement \<Rightarrow> replacement
                    | None \<Rightarrow> inp ! index])
            (rawString @ [inp ! index]) False = Inr (i, tok)"
          by (simp add: Let_def)
        with IH2 [OF esc nu] have "index + 1 \<le> i" by simp
        then show ?thesis by simp
      qed
    next
      case nesc: False
      show ?thesis
      proof (cases "inp ! index = quote")
        case True
        with eq lt nesc show ?thesis by (simp add: Let_def)
      next
        case nq: False
        show ?thesis
        proof (cases "inp ! index = CHR 0x5C")
          case bs: True
          with eq lt nesc nq
          have "readString_loop inp quote (index + 1) str (rawString @ [inp ! index]) True
              = Inr (i, tok)"
            by (simp add: Let_def)
          with IH3 [OF nesc nq bs] have "index + 1 \<le> i" by simp
          then show ?thesis by simp
        next
          case nbs: False
          with eq lt nesc nq
          have "readString_loop inp quote (index + 1) (str @ [inp ! index])
              (rawString @ [inp ! index]) False = Inr (i, tok)"
            by (simp add: Let_def)
          with IH4 [OF nesc nq nbs] have "index + 1 \<le> i" by simp
          then show ?thesis by simp
        qed
      qed
    qed
  qed
qed

lemma readIdentifier_loop_index:
  "readIdentifier_loop inp index ident = (i, n) \<Longrightarrow> index \<le> i"
proof (induction inp index ident rule: readIdentifier_loop.induct)
  case (1 inp index ident)
  note IH = "1.IH" and prems = "1.prems"
  show ?case
  proof (cases "index < length inp \<and>
      (isIdentifier (Some [inp ! index]) \<or> isNumber (Some [inp ! index]))")
    case False
    with prems show ?thesis
      by (subst (asm) readIdentifier_loop.simps) (auto simp: Let_def split: if_splits)
  next
    case True
    with prems have "readIdentifier_loop inp (index + 1) (ident @ [inp ! index]) = (i, n)"
      by (subst (asm) readIdentifier_loop.simps) (auto simp: Let_def)
    with IH [OF _ refl] True have "index + 1 \<le> i" by simp
    then show ?thesis by simp
  qed
qed

lemma readIdentifier_loop_progress:
  assumes "index < length inp" and "isIdentifier (Some [inp ! index])"
    and "readIdentifier_loop inp index ident = (i, n)"
  shows "index < i"
proof -
  from assms have "readIdentifier_loop inp (index + 1) (ident @ [inp ! index]) = (i, n)"
    by (subst (asm) readIdentifier_loop.simps) (auto simp: Let_def)
  then have "index + 1 \<le> i" by (rule readIdentifier_loop_index)
  then show ?thesis by simp
qed

lemma findLast_Some: "findLast P xs = Some x \<Longrightarrow> P x"
  by (auto simp: findLast_def find_Some_iff)

lemma OperatorsMap_nonempty: "chars \<in> set OperatorsMap \<Longrightarrow> 0 < length chars"
  by (auto simp: OperatorsMap_def)

lemma lex_step_progress:
  assumes "index < length inp" and "lex_step inp index tokens = Inr (i, toks)"
  shows "index < i"
proof -
  define ch where "ch = inp ! index"
  consider (num) "isNumber (Some [ch]) \<or> (ch = CHR ''.'' \<and> isNumber (peek inp index 1))"
    | (str) "\<not> (isNumber (Some [ch]) \<or> (ch = CHR ''.'' \<and> isNumber (peek inp index 1)))"
        "ch \<in> set [CHR 0x27, CHR 0x22]"
    | (other) "\<not> (isNumber (Some [ch]) \<or> (ch = CHR ''.'' \<and> isNumber (peek inp index 1)))"
        "ch \<notin> set [CHR 0x27, CHR 0x22]"
    by blast
  then show ?thesis
  proof cases
    case num
    with assms(2) obtain n where "readNumber_loop inp index [] = Inr (i, n)"
      by (auto simp: lex_step_def readNumber_def ch_def [symmetric] split: sum.splits)
    moreover from num have "isNumber (Some [inp ! index]) \<or> inp ! index = CHR ''.''"
      by (auto simp: ch_def)
    ultimately show ?thesis using readNumber_loop_progress assms(1) by blast
  next
    case str
    with assms(2) obtain tok where
      "readString_loop inp ch (index + 1) [] [] False = Inr (i, tok)"
      by (auto simp: lex_step_def readString_def ch_def [symmetric] split: sum.splits)
    then have "index + 1 \<le> i" by (rule readString_loop_index)
    then show ?thesis by simp
  next
    case other
    show ?thesis
    proof (cases "ch \<in> set ''[],{}:.()?;'' \<or>
        (\<not> isIdentifier (Some [ch]) \<and> isWhiteSpace (Some [ch]))")
      case True
      with other assms(2) show ?thesis
        by (auto simp: lex_step_def ch_def [symmetric] Let_def split: if_splits)
    next
      case np: False
      show ?thesis
      proof (cases "isIdentifier (Some [ch])")
        case True
        with other np assms(2) obtain n where "readIdentifier_loop inp index [] = (i, n)"
          by (auto simp: lex_step_def ch_def [symmetric] Let_def readIdentifier_def
              split: if_splits prod.splits)
        with True assms(1) show ?thesis
          using readIdentifier_loop_progress unfolding ch_def by blast
      next
        case False
        with other np assms(2) obtain findOp where
          "findOp \<in> set OperatorsMap" "i = index + length findOp"
          by (auto simp: lex_step_def ch_def [symmetric] Let_def
              split: if_splits option.splits dest: findLast_Some)
        then show ?thesis using OperatorsMap_nonempty by auto
      qed
    qed
  qed
qed

function lex_loop :: "string \<Rightarrow> nat \<Rightarrow> token list \<Rightarrow> error + token list" where
  "lex_loop inp index tokens =
     (if index < length inp then
        (case lex_step inp index tokens of
           Inl e \<Rightarrow> Inl e
         | Inr (index', tokens') \<Rightarrow> lex_loop inp index' tokens')
      else Inr tokens)"
  by pat_completeness auto
termination
proof (relation "measure (\<lambda>(inp, index, tokens). length inp - index)")
  show "wf (measure (\<lambda>(inp, index, tokens). length inp - index))" by simp
next
  fix inp :: string and index :: nat and tokens :: "token list" and x2 x1 x2a
  assume "index < length inp" "lex_step inp index tokens = Inr x2" "(x1, x2a) = x2"
  then have "index < x1" using lex_step_progress [of index inp tokens x1 x2a] by simp
  with \<open>index < length inp\<close>
  show "((inp, x1, x2a), inp, index, tokens) \<in> measure (\<lambda>(inp, index, tokens). length inp - index)"
    by simp
qed

declare lex_loop.simps [simp del]

definition lex :: "string \<Rightarrow> error + token list" where
  "lex inp = lex_loop inp 0 []"

section \<open>The AST (parse.js, lines 218--420)\<close>

text \<open>
  Every node class computes its fields \<^verbatim>\<open>constant\<close> (below \<open>constant_of\<close>) and
  \<^verbatim>\<open>toWatch\<close> in its constructor from its children and never changes them, so both are
  functions of the node. The only outside
  input of a constructor is the filter registry, read once by
  \<^verbatim>\<open>ASTFilterExpressionNode\<close>; the node keeps what was read as \<open>stateless\<close>.
  \<^verbatim>\<open>this.toWatch = [this]\<close> is the one-element list holding the node.
\<close>

datatype objkey = KeyIdentifier string | KeyLiteral val

datatype node =
    ASTLiteralNode val
  | ASTArrayExpressionNode "node list"
  | ASTObjectNode "(objkey \<times> node) list"
  | ASTIdentifierNode string
  | ASTThisExpressionNode
  | ASTNonComputedMemberExpressionNode node string
  | ASTComputedMemberExpressionNode node node
  | ASTCallExpressionNode node "node list"
  | ASTFilterExpressionNode bool string "node list"
  | ASTAssignmentExpressionNode node node
  | ASTUnaryExpressionNode string node
  | ASTBinaryExpressionNode string node node
  | ASTLogicalExpressionNode string node node
  | ASTConditionalExpressionNode node node node
  | ASTNGValueParamter

datatype program = ASTProgramNode (body: "node list")

fun constant_of :: "node \<Rightarrow> bool" where
  "constant_of (ASTLiteralNode v) = True"
| "constant_of (ASTArrayExpressionNode elements) =
     (length (filter constant_of elements) = length elements)"
| "constant_of (ASTObjectNode properties) =
     (length (filter (\<lambda>p. constant_of (snd p)) properties) = length properties)"
| "constant_of (ASTIdentifierNode name) = False"
| "constant_of ASTThisExpressionNode = False"
| "constant_of (ASTNonComputedMemberExpressionNode object property) = constant_of object"
| "constant_of (ASTComputedMemberExpressionNode object property) =
     (constant_of object \<and> constant_of property)"
| "constant_of (ASTCallExpressionNode callee args) = False"
| "constant_of (ASTFilterExpressionNode stateless callee args) =
     (stateless \<and> list_all constant_of args)"
| "constant_of (ASTAssignmentExpressionNode left right) = (constant_of left \<and> constant_of right)"
| "constant_of (ASTUnaryExpressionNode operator argument) = constant_of argument"
| "constant_of (ASTBinaryExpressionNode operator left right) = (constant_of left \<and> constant_of right)"
| "constant_of (ASTLogicalExpressionNode operator left right) = (constant_of left \<and> constant_of right)"
| "constant_of (ASTConditionalExpressionNode test consequent alternate) =
     (constant_of test \<and> constant_of consequent \<and> constant_of alternate)"
| "constant_of ASTNGValueParamter = False"

fun toWatch :: "node \<Rightarrow> node list" where
  "toWatch (ASTLiteralNode v) = []"
| "toWatch (ASTArrayExpressionNode elements) =
     concat (map toWatch (filter (\<lambda>n. \<not> constant_of n) elements))"
| "toWatch (ASTObjectNode properties) =
     concat (map (\<lambda>p. toWatch (snd p)) (filter (\<lambda>p. \<not> constant_of (snd p)) properties))"
| "toWatch (ASTIdentifierNode name) = [ASTIdentifierNode name]"
| "toWatch ASTThisExpressionNode = []"
| "toWatch (ASTNonComputedMemberExpressionNode object property) =
     [ASTNonComputedMemberExpressionNode object property]"
| "toWatch (ASTComputedMemberExpressionNode object property) =
     [ASTComputedMemberExpressionNode object property]"
| "toWatch (ASTCallExpressionNode callee args) = [ASTCallExpressionNode callee args]"
| "toWatch (ASTFilterExpressionNode stateless callee args) =
     (if stateless then concat (map toWatch args)
      else [ASTFilterExpressionNode stateless callee args])"
| "toWatch (ASTAssignmentExpressionNode left right) = [ASTAssignmentExpressionNode left right]"
| "toWatch (ASTUnaryExpressionNode operator argument) = toWatch argument"
| "toWatch (ASTBinaryExpressionNode operator left right) = toWatch left @ toWatch right"
| "toWatch (ASTLogicalExpressionNode operator left right) =
     [ASTLogicalExpressionNode operator left right]"
| "toWatch (ASTConditionalExpressionNode test consequent alternate) =
     [ASTConditionalExpressionNode test consequent alternate]"
| "toWatch ASTNGValueParamter = []"

definition program_constant :: "program \<Rightarrow> bool" where
  "program_constant ast = list_all constant_of (body ast)"

subsection \<open>The analyses of class AST (parse.js, lines 675--705)\<close>

fun isLiteralNode :: "node \<Rightarrow> bool" where
  "isLiteralNode (ASTLiteralNode v) = True"
| "isLiteralNode (ASTArrayExpressionNode elements) = True"
| "isLiteralNode (ASTObjectNode properties) = True"
| "isLiteralNode n = False"

definition isLiteral :: "program \<Rightarrow> bool" where
  "isLiteral ast =
     (length (body ast) = 0 \<or> (length (body ast) = 1 \<and> isLiteralNode (body ast ! 0)))"

text \<open>
  \<^verbatim>\<open>candidate[0] !== body[0]\<close> compares references. Every element of \<open>toWatch n\<close> is
  \<open>n\<close> itself or a node below \<open>n\<close> (lemma \<open>toWatch_size\<close>), and a node below \<open>n\<close> is
  smaller than \<open>n\<close>, so the element equals \<open>n\<close> as a value exactly when it is the
  node \<open>n\<close>: the comparison of values below decides what the comparison of
  references does.
\<close>

definition getInputs :: "program \<Rightarrow> node list" where
  "getInputs ast =
     (if length (body ast) \<noteq> 1 then []
      else let candidate = toWatch (body ast ! 0)
           in if length candidate \<noteq> 1 \<or> candidate ! 0 \<noteq> body ast ! 0 then candidate
              else [])"

fun isAssignable :: "node \<Rightarrow> bool" where
  "isAssignable (ASTIdentifierNode name) = True"
| "isAssignable (ASTNonComputedMemberExpressionNode object property) = True"
| "isAssignable (ASTComputedMemberExpressionNode object property) = True"
| "isAssignable n = False"

definition assignableAST :: "program \<Rightarrow> node option" where
  "assignableAST ast =
     (if length (body ast) = 1 \<and> isAssignable (body ast ! 0)
      then Some (ASTAssignmentExpressionNode (body ast ! 0) ASTNGValueParamter)
      else None)"


section \<open>Properties of the AST analyses\<close>



lemma size_in_list: "x \<in> set xs \<Longrightarrow> size x \<le> size_list size xs"
  by (induction xs) auto

lemma size_in_props:
  "(k, x) \<in> set ps \<Longrightarrow> size x \<le> size_list (size_prod (\<lambda>x. 0) size) ps"
  by (induction ps) auto

text \<open>
  What \<open>getInputs\<close> relies on: an element of \<open>toWatch n\<close> is the node \<open>n\<close> or lies
  strictly below it.
\<close>

lemma toWatch_self_or_below: "w \<in> set (toWatch n) \<Longrightarrow> w = n \<or> size w < size n"
proof (induction n arbitrary: w)
  case (ASTArrayExpressionNode x)
  from ASTArrayExpressionNode.prems obtain e where e: "e \<in> set x" "w \<in> set (toWatch e)"
    by auto
  from ASTArrayExpressionNode.IH [OF e] have "size w \<le> size e" by auto
  with size_in_list [OF e(1)] show ?case by simp
next
  case (ASTObjectNode x)
  from ASTObjectNode.prems obtain k e where e: "(k, e) \<in> set x" "w \<in> set (toWatch e)"
    by auto
  have "e \<in> Basic_BNFs.snds (k, e)" by (simp add: snds.simps)
  from ASTObjectNode.IH [OF e(1) this e(2)] have "size w \<le> size e" by auto
  with size_in_props [OF e(1)] show ?case by simp
next
  case (ASTFilterExpressionNode st c args)
  show ?case
  proof (cases st)
    case True
    with ASTFilterExpressionNode.prems obtain e
      where e: "e \<in> set args" "w \<in> set (toWatch e)"
      by auto
    from ASTFilterExpressionNode.IH [OF e] have "size w \<le> size e" by auto
    with size_in_list [OF e(1)] show ?thesis by simp
  next
    case False
    with ASTFilterExpressionNode.prems show ?thesis by simp
  qed
next
  case (ASTUnaryExpressionNode op a)
  then have "w = a \<or> size w < size a" by simp
  then show ?case by auto
next
  case (ASTBinaryExpressionNode op l r)
  then have "(w = l \<or> size w < size l) \<or> (w = r \<or> size w < size r)" by auto
  then show ?case by auto
qed simp_all





section \<open>The parser (class AST of parse.js, lines 422--673)\<close>

text \<open>
  The parser mutates \<^verbatim>\<open>this.tokens\<close>; here every routine takes the token list and gives
  back the rest with its node. An exception is the value \<open>Inl\<close>. The routines call each
  other recursively and in loops. They are the equations of one function \<open>parse_routine\<close>,
  which takes the routine to run (with the arguments and loop variables of the source:
  the node parsed so far, the list collected so far) and a call budget, and gives
  \<open>OutOfFuel\<close> when the budget is used up; \<open>ast\<close> starts with a budget that grows with
  the number of tokens. A routine gives a node, a list of nodes, the properties of an
  object or the program; \<open>seq_node\<close>, \<open>seq_nodes\<close> and \<open>seq_properties\<close> read the
  result of the kind that the routine called gives.

  The one outside input is the filter registry, read by the constructor of
  \<^verbatim>\<open>ASTFilterExpressionNode\<close> as \<^verbatim>\<open>!(filter(callee.name).$stateful)\<close>: the parameter
  \<open>stateless\<close> gives that value for a filter name, or the exception of the read.
\<close>

definition seq :: "error + 'a \<Rightarrow> ('a \<Rightarrow> error + 'b) \<Rightarrow> error + 'b" where
  "seq m f = (case m of Inl e \<Rightarrow> Inl e | Inr x \<Rightarrow> f x)"

definition peek_token :: "string option list \<Rightarrow> token list \<Rightarrow> token option" where
  "peek_token expectations tokens =
     (case tokens of
        [] \<Rightarrow> None
      | t # ts \<Rightarrow>
          if Some (tok_text t) \<in> set expectations \<or> list_all (\<lambda>e. e = None) expectations
          then Some t else None)"

definition expect :: "string option list \<Rightarrow> token list \<Rightarrow> (token \<times> token list) option" where
  "expect expectations tokens =
     (case peek_token expectations tokens of
        Some t \<Rightarrow> Some (t, tl tokens)
      | None \<Rightarrow> None)"

definition consume :: "string option \<Rightarrow> token list \<Rightarrow> error + (token \<times> token list)" where
  "consume e tokens =
     (case expect [e] tokens of
        Some r \<Rightarrow> Inr r
      | None \<Rightarrow> Inl (UnexpectedExpected e))"

definition LanguageConstants :: "string \<Rightarrow> node option" where
  "LanguageConstants = map_of
     [(''this'', ASTThisExpressionNode),
      (''null'', ASTLiteralNode VNull),
      (''true'', ASTLiteralNode (VBool True)),
      (''false'', ASTLiteralNode (VBool False)),
      (''undefined'', ASTLiteralNode VUndefined)]"

definition parse_constant :: "token list \<Rightarrow> error + (val \<times> token list)" where
  "parse_constant tokens =
     seq (consume None tokens) (\<lambda>(node, ts). Inr (tok_value node, ts))"

definition parse_identifier :: "token list \<Rightarrow> error + (string \<times> token list)" where
  "parse_identifier tokens =
     seq (consume None tokens) (\<lambda>(node, ts).
       if \<not> tok_identifier node then Inl (NotAnIdentifier (tok_text node))
       else Inr (tok_text node, ts))"

definition new_ASTFilterExpressionNode ::
  "(string \<Rightarrow> error + bool) \<Rightarrow> string \<Rightarrow> node list \<Rightarrow> error + node" where
  "new_ASTFilterExpressionNode stateless callee args =
     seq (stateless callee) (\<lambda>st. Inr (ASTFilterExpressionNode st callee args))"

datatype routine =
    Program "node list"
  | Filter
  | FilterLoop node
  | FilterArgs "node list"
  | Assignment
  | Ternary
  | LogicalOR
  | LogicalORLoop node
  | LogicalAND
  | LogicalANDLoop node
  | Equality
  | EqualityLoop node
  | Relational
  | RelationalLoop node
  | Additive
  | AdditiveLoop node
  | Multiplicative
  | MultiplicativeLoop node
  | Unary
  | Primary
  | PrimaryLoop node
  | ComputedMemberExpression node
  | CallExpression node
  | CallArgs "node list"
  | Object
  | ObjectProperties "(objkey \<times> node) list"
  | ArrayDeclaration
  | ArrayElements "node list"

datatype parsed =
    PNode node
  | PNodes "node list"
  | PProperties "(objkey \<times> node) list"
  | PProgram program

definition seq_node ::
  "error + (parsed \<times> token list) \<Rightarrow> (node \<times> token list \<Rightarrow> error + 'b) \<Rightarrow> error + 'b" where
  "seq_node m f =
     seq m (\<lambda>(r, ts). case r of PNode x \<Rightarrow> f (x, ts) | _ \<Rightarrow> Inl OutsideModel)"

definition seq_nodes ::
  "error + (parsed \<times> token list) \<Rightarrow> (node list \<times> token list \<Rightarrow> error + 'b) \<Rightarrow> error + 'b" where
  "seq_nodes m f =
     seq m (\<lambda>(r, ts). case r of PNodes xs \<Rightarrow> f (xs, ts) | _ \<Rightarrow> Inl OutsideModel)"

definition seq_properties ::
  "error + (parsed \<times> token list) \<Rightarrow> ((objkey \<times> node) list \<times> token list \<Rightarrow> error + 'b)
     \<Rightarrow> error + 'b" where
  "seq_properties m f =
     seq m (\<lambda>(r, ts). case r of PProperties xs \<Rightarrow> f (xs, ts) | _ \<Rightarrow> Inl OutsideModel)"

fun parse_routine ::
  "(string \<Rightarrow> error + bool) \<Rightarrow> nat \<Rightarrow> routine \<Rightarrow> token list \<Rightarrow> error + (parsed \<times> token list)"
where
  "parse_routine stateless 0 r tokens = Inl OutOfFuel"
| "parse_routine stateless (Suc n) (Program stmts) tokens =
     seq (if tokens \<noteq> []
          then seq_node (parse_routine stateless n Filter tokens) (\<lambda>(e, ts). Inr (stmts @ [e], ts))
          else Inr (stmts, tokens))
       (\<lambda>(stmts', ts).
          case expect [Some '';''] ts of
            Some (semi, ts') \<Rightarrow> parse_routine stateless n (Program stmts') ts'
          | None \<Rightarrow> Inr (PProgram (ASTProgramNode stmts'), ts))"
| "parse_routine stateless (Suc n) Filter tokens =
     seq_node (parse_routine stateless n Assignment tokens) (\<lambda>(left, ts).
       parse_routine stateless n (FilterLoop left) ts)"
| "parse_routine stateless (Suc n) (FilterLoop left) tokens =
     (case expect [Some ''|''] tokens of
        None \<Rightarrow> Inr (PNode left, tokens)
      | Some (bar, ts) \<Rightarrow>
          seq (parse_identifier ts) (\<lambda>(callee, ts1).
          seq_nodes (parse_routine stateless n (FilterArgs [left]) ts1) (\<lambda>(args, ts2).
          seq (new_ASTFilterExpressionNode stateless callee args) (\<lambda>left'.
          parse_routine stateless n (FilterLoop left') ts2))))"
| "parse_routine stateless (Suc n) (FilterArgs args) tokens =
     (case expect [Some '':''] tokens of
        None \<Rightarrow> Inr (PNodes args, tokens)
      | Some (colon, ts) \<Rightarrow>
          seq_node (parse_routine stateless n Assignment ts) (\<lambda>(a, ts1).
            parse_routine stateless n (FilterArgs (args @ [a])) ts1))"
| "parse_routine stateless (Suc n) Assignment tokens =
     seq_node (parse_routine stateless n Ternary tokens) (\<lambda>(left, ts).
       case expect [Some ''=''] ts of
         Some (eq, ts1) \<Rightarrow>
           seq_node (parse_routine stateless n Ternary ts1) (\<lambda>(right, ts2).
             Inr (PNode (ASTAssignmentExpressionNode left right), ts2))
       | None \<Rightarrow> Inr (PNode left, ts))"
| "parse_routine stateless (Suc n) Ternary tokens =
     seq_node (parse_routine stateless n LogicalOR tokens) (\<lambda>(test, ts).
       case expect [Some ''?''] ts of
         Some (q, ts1) \<Rightarrow>
           seq_node (parse_routine stateless n Assignment ts1) (\<lambda>(consequent, ts2).
           seq (consume (Some '':'') ts2) (\<lambda>(colon, ts3).
           seq_node (parse_routine stateless n Assignment ts3) (\<lambda>(alternate, ts4).
             Inr (PNode (ASTConditionalExpressionNode test consequent alternate), ts4))))
       | None \<Rightarrow> Inr (PNode test, ts))"
| "parse_routine stateless (Suc n) LogicalOR tokens =
     seq_node (parse_routine stateless n LogicalAND tokens) (\<lambda>(left, ts).
       parse_routine stateless n (LogicalORLoop left) ts)"
| "parse_routine stateless (Suc n) (LogicalORLoop left) tokens =
     (case expect [Some ''||''] tokens of
        Some (tok, ts) \<Rightarrow>
          seq_node (parse_routine stateless n LogicalAND ts) (\<lambda>(right, ts1).
            parse_routine stateless n
              (LogicalORLoop (ASTLogicalExpressionNode (tok_text tok) left right)) ts1)
      | None \<Rightarrow> Inr (PNode left, tokens))"
| "parse_routine stateless (Suc n) LogicalAND tokens =
     seq_node (parse_routine stateless n Equality tokens) (\<lambda>(left, ts).
       parse_routine stateless n (LogicalANDLoop left) ts)"
| "parse_routine stateless (Suc n) (LogicalANDLoop left) tokens =
     (case expect [Some ''&&''] tokens of
        Some (tok, ts) \<Rightarrow>
          seq_node (parse_routine stateless n Equality ts) (\<lambda>(right, ts1).
            parse_routine stateless n
              (LogicalANDLoop (ASTLogicalExpressionNode (tok_text tok) left right)) ts1)
      | None \<Rightarrow> Inr (PNode left, tokens))"
| "parse_routine stateless (Suc n) Equality tokens =
     seq_node (parse_routine stateless n Relational tokens) (\<lambda>(left, ts).
       parse_routine stateless n (EqualityLoop left) ts)"
| "parse_routine stateless (Suc n) (EqualityLoop left) tokens =
     (case expect [Some ''=='', Some ''!='', Some ''==='', Some ''!==''] tokens of
        Some (tok, ts) \<Rightarrow>
          seq_node (parse_routine stateless n Relational ts) (\<lambda>(right, ts1).
            parse_routine stateless n
              (EqualityLoop (ASTBinaryExpressionNode (tok_text tok) left right)) ts1)
      | None \<Rightarrow> Inr (PNode left, tokens))"
| "parse_routine stateless (Suc n) Relational tokens =
     seq_node (parse_routine stateless n Additive tokens) (\<lambda>(left, ts).
       parse_routine stateless n (RelationalLoop left) ts)"
| "parse_routine stateless (Suc n) (RelationalLoop left) tokens =
     (case expect [Some ''<'', Some ''>'', Some ''>='', Some ''<=''] tokens of
        Some (tok, ts) \<Rightarrow>
          seq_node (parse_routine stateless n Additive ts) (\<lambda>(right, ts1).
            parse_routine stateless n
              (RelationalLoop (ASTBinaryExpressionNode (tok_text tok) left right)) ts1)
      | None \<Rightarrow> Inr (PNode left, tokens))"
| "parse_routine stateless (Suc n) Additive tokens =
     seq_node (parse_routine stateless n Multiplicative tokens) (\<lambda>(left, ts).
       parse_routine stateless n (AdditiveLoop left) ts)"
| "parse_routine stateless (Suc n) (AdditiveLoop left) tokens =
     (case expect [Some ''+'', Some ''-''] tokens of
        Some (tok, ts) \<Rightarrow>
          seq_node (parse_routine stateless n Multiplicative ts) (\<lambda>(right, ts1).
            parse_routine stateless n
              (AdditiveLoop (ASTBinaryExpressionNode (tok_text tok) left right)) ts1)
      | None \<Rightarrow> Inr (PNode left, tokens))"
| "parse_routine stateless (Suc n) Multiplicative tokens =
     seq_node (parse_routine stateless n Unary tokens) (\<lambda>(left, ts).
       parse_routine stateless n (MultiplicativeLoop left) ts)"
| "parse_routine stateless (Suc n) (MultiplicativeLoop left) tokens =
     (case expect [Some ''*'', Some ''/'', Some ''%''] tokens of
        Some (tok, ts) \<Rightarrow>
          seq_node (parse_routine stateless n Unary ts) (\<lambda>(right, ts1).
            parse_routine stateless n
              (MultiplicativeLoop (ASTBinaryExpressionNode (tok_text tok) left right)) ts1)
      | None \<Rightarrow> Inr (PNode left, tokens))"
| "parse_routine stateless (Suc n) Unary tokens =
     (case expect [Some ''+'', Some ''!'', Some ''-''] tokens of
        Some (tok, ts) \<Rightarrow>
          seq_node (parse_routine stateless n Unary ts) (\<lambda>(argument, ts1).
            Inr (PNode (ASTUnaryExpressionNode (tok_text tok) argument), ts1))
      | None \<Rightarrow> parse_routine stateless n Primary tokens)"
| "parse_routine stateless (Suc n) Primary tokens =
     seq_node
       (case expect [Some ''(''] tokens of
          Some (paren, ts) \<Rightarrow>
            seq_node (parse_routine stateless n Filter ts) (\<lambda>(p, ts1).
            seq (consume (Some '')'') ts1) (\<lambda>(close, ts2). Inr (PNode p, ts2)))
        | None \<Rightarrow>
       (case expect [Some ''[''] tokens of
          Some (bracket, ts) \<Rightarrow> parse_routine stateless n ArrayDeclaration ts
        | None \<Rightarrow>
       (case expect [Some ''{''] tokens of
          Some (brace, ts) \<Rightarrow> parse_routine stateless n Object ts
        | None \<Rightarrow>
       (case tokens of
          [] \<Rightarrow> Inl TypeError
        | t # rest \<Rightarrow>
            (case LanguageConstants (tok_text t) of
               Some c \<Rightarrow> seq (consume None tokens) (\<lambda>(tok, ts). Inr (PNode c, ts))
             | None \<Rightarrow>
                 (case peek_token [] tokens of
                    Some p \<Rightarrow>
                      if tok_identifier p
                      then seq (parse_identifier tokens) (\<lambda>(name, ts).
                             Inr (PNode (ASTIdentifierNode name), ts))
                      else seq (parse_constant tokens) (\<lambda>(v, ts).
                             Inr (PNode (ASTLiteralNode v), ts))
                  | None \<Rightarrow>
                      seq (parse_constant tokens) (\<lambda>(v, ts).
                        Inr (PNode (ASTLiteralNode v), ts))))))))
       (\<lambda>(p, ts). parse_routine stateless n (PrimaryLoop p) ts)"
| "parse_routine stateless (Suc n) (PrimaryLoop p) tokens =
     (case expect [Some ''.'', Some ''['', Some ''(''] tokens of
        None \<Rightarrow> Inr (PNode p, tokens)
      | Some (next, ts) \<Rightarrow>
          if tok_text next = ''[''
          then seq_node (parse_routine stateless n (ComputedMemberExpression p) ts) (\<lambda>(p', ts1).
                 parse_routine stateless n (PrimaryLoop p') ts1)
          else if tok_text next = ''.''
          then seq (parse_identifier ts) (\<lambda>(property, ts1).
                 parse_routine stateless n
                   (PrimaryLoop (ASTNonComputedMemberExpressionNode p property)) ts1)
          else if tok_text next = ''(''
          then seq_node (parse_routine stateless n (CallExpression p) ts) (\<lambda>(p', ts1).
                 parse_routine stateless n (PrimaryLoop p') ts1)
          else parse_routine stateless n (PrimaryLoop p) ts)"
| "parse_routine stateless (Suc n) (ComputedMemberExpression object) tokens =
     seq_node (parse_routine stateless n Primary tokens) (\<lambda>(property, ts).
     seq (consume (Some '']'') ts) (\<lambda>(close, ts1).
       Inr (PNode (ASTComputedMemberExpressionNode object property), ts1)))"
| "parse_routine stateless (Suc n) (CallExpression callee) tokens =
     seq_nodes
       (if peek_token [Some '')''] tokens = None
        then parse_routine stateless n (CallArgs []) tokens
        else Inr (PNodes [], tokens))
       (\<lambda>(args, ts).
          seq (consume (Some '')'') ts) (\<lambda>(close, ts1).
            Inr (PNode (ASTCallExpressionNode callee args), ts1)))"
| "parse_routine stateless (Suc n) (CallArgs args) tokens =
     seq_node (parse_routine stateless n Assignment tokens) (\<lambda>(a, ts).
       case expect [Some '',''] ts of
         Some (comma, ts1) \<Rightarrow> parse_routine stateless n (CallArgs (args @ [a])) ts1
       | None \<Rightarrow> Inr (PNodes (args @ [a]), ts))"
| "parse_routine stateless (Suc n) Object tokens =
     seq_properties
       (if peek_token [Some ''}''] tokens = None
        then parse_routine stateless n (ObjectProperties []) tokens
        else Inr (PProperties [], tokens))
       (\<lambda>(properties, ts).
          seq (consume (Some ''}'') ts) (\<lambda>(close, ts1).
            Inr (PNode (ASTObjectNode properties), ts1)))"
| "parse_routine stateless (Suc n) (ObjectProperties properties) tokens =
     (case peek_token [] tokens of
        None \<Rightarrow> Inl UnexpectedTerminates
      | Some p \<Rightarrow>
          seq (if tok_identifier p
               then seq (parse_identifier tokens) (\<lambda>(name, ts). Inr (KeyIdentifier name, ts))
               else seq (parse_constant tokens) (\<lambda>(v, ts). Inr (KeyLiteral v, ts)))
            (\<lambda>(key, ts).
               seq (consume (Some '':'') ts) (\<lambda>(colon, ts1).
               seq_node (parse_routine stateless n Assignment ts1) (\<lambda>(v, ts2).
                 case expect [Some '',''] ts2 of
                   Some (comma, ts3) \<Rightarrow>
                     parse_routine stateless n (ObjectProperties (properties @ [(key, v)])) ts3
                 | None \<Rightarrow> Inr (PProperties (properties @ [(key, v)]), ts2)))))"
| "parse_routine stateless (Suc n) ArrayDeclaration tokens =
     seq_nodes
       (if peek_token [Some '']''] tokens = None
        then parse_routine stateless n (ArrayElements []) tokens
        else Inr (PNodes [], tokens))
       (\<lambda>(elements, ts).
          seq (consume (Some '']'') ts) (\<lambda>(close, ts1).
            Inr (PNode (ASTArrayExpressionNode elements), ts1)))"
| "parse_routine stateless (Suc n) (ArrayElements elements) tokens =
     (if peek_token [Some '']''] tokens \<noteq> None then Inr (PNodes elements, tokens)
      else seq_node (parse_routine stateless n Assignment tokens) (\<lambda>(e, ts).
             case expect [Some '',''] ts of
               Some (comma, ts1) \<Rightarrow> parse_routine stateless n (ArrayElements (elements @ [e])) ts1
             | None \<Rightarrow> Inr (PNodes (elements @ [e]), ts)))"

definition ast_fuel :: "token list \<Rightarrow> nat" where
  "ast_fuel tokens = 32 * (length tokens + 1)"

definition ast :: "(string \<Rightarrow> error + bool) \<Rightarrow> string \<Rightarrow> error + program" where
  "ast stateless inp =
     seq (lex inp) (\<lambda>tokens.
     seq (parse_routine stateless (ast_fuel tokens) (Program []) tokens) (\<lambda>(r, rest).
       case r of PProgram p \<Rightarrow> Inr p | _ \<Rightarrow> Inl OutsideModel))"




text \<open>
  Claim C6. \<^verbatim>\<open>AST.getInputs\<close> gives the empty list for a program whose body does not
  have exactly one element; for a body of the single element \<open>e\<close> it gives \<open>toWatch e\<close>,
  unless that is the one-element list of \<open>e\<close> itself, where it gives the empty list.
\<close>

theorem getInputs_spec:
  "(length b \<noteq> 1 \<longrightarrow> getInputs (ASTProgramNode b) = [])
   \<and> getInputs (ASTProgramNode [e]) = (if toWatch e = [e] then [] else toWatch e)"
proof -
  have "(length (toWatch e) \<noteq> 1 \<or> toWatch e ! 0 \<noteq> e) = (toWatch e \<noteq> [e])"
    by (cases "toWatch e") auto
  then show ?thesis by (simp add: getInputs_def Let_def)
qed

theorem getInputs_spec_witness:
  "length [ASTIdentifierNode ''a'', ASTIdentifierNode ''b''] \<noteq> 1
   \<and> getInputs (ASTProgramNode [ASTIdentifierNode ''a'', ASTIdentifierNode ''b'']) = []
   \<and> getInputs (ASTProgramNode [ASTIdentifierNode ''a'']) = []
   \<and> getInputs (ASTProgramNode [ASTUnaryExpressionNode ''-'' (ASTIdentifierNode ''a'')])
       = [ASTIdentifierNode ''a'']"
  using getInputs_spec [of "[ASTIdentifierNode ''a'', ASTIdentifierNode ''b'']"
      "ASTIdentifierNode ''a''"]
    getInputs_spec [of "[]" "ASTUnaryExpressionNode ''-'' (ASTIdentifierNode ''a'')"]
  by simp

section \<open>The lexer on exponents\<close>

text \<open>
  The characters that \<^verbatim>\<open>readNumber\<close> takes without looking further: digits and dots.
  \<open>number_start\<close> is the test of \<^verbatim>\<open>lex\<close> for the start of a number: a digit, or a dot
  before a digit.
\<close>

definition is_mantissa :: "string \<Rightarrow> bool" where
  "is_mantissa m = list_all (\<lambda>c. c = CHR ''.'' \<or> (CHR ''0'' \<le> c \<and> c \<le> CHR ''9'')) m"

definition number_start :: "string \<Rightarrow> bool" where
  "number_start m =
     (case m of
        [] \<Rightarrow> False
      | c # r \<Rightarrow>
          (CHR ''0'' \<le> c \<and> c \<le> CHR ''9'') \<or>
          (c = CHR ''.'' \<and> (case r of [] \<Rightarrow> False | d # r' \<Rightarrow> CHR ''0'' \<le> d \<and> d \<le> CHR ''9'')))"

definition number_token :: "string \<Rightarrow> token" where
  "number_token number =
     \<lparr>tok_text = number, tok_value = VNum (toNumber number), tok_identifier = False\<rparr>"

definition identifier_token :: "string \<Rightarrow> token" where
  "identifier_token name = \<lparr>tok_text = name, tok_value = VUndefined, tok_identifier = True\<rparr>"

lemma is_mantissa_Cons:
  "is_mantissa (d # ds) = ((d = CHR ''.'' \<or> isNumber (Some [d])) \<and> is_mantissa ds)"
  by (simp add: is_mantissa_def isNumber_char)

lemma readNumber_loop_mantissa:
  "is_mantissa ds \<Longrightarrow>
   readNumber_loop (pre @ ds @ post) (length pre) number =
   readNumber_loop (pre @ ds @ post) (length pre + length ds) (number @ ds)"
proof (induction ds arbitrary: pre number)
  case Nil
  show ?case by simp
next
  case (Cons d ds)
  from Cons.prems have d: "d = CHR ''.'' \<or> isNumber (Some [d])" and ds: "is_mantissa ds"
    by (simp_all add: is_mantissa_Cons)
  from d have dl: "toLowerCase d = d"
    using toLowerCase_digit toLowerCase_dot by auto
  have "readNumber_loop (pre @ (d # ds) @ post) (length pre) number =
        readNumber_loop (pre @ (d # ds) @ post) (length pre + 1) (number @ [d])"
    using d by (subst readNumber_loop.simps) (simp add: Let_def dl)
  also have "\<dots> = readNumber_loop ((pre @ [d]) @ ds @ post) (length (pre @ [d])) (number @ [d])"
    by simp
  also have "\<dots> = readNumber_loop ((pre @ [d]) @ ds @ post) (length (pre @ [d]) + length ds)
      ((number @ [d]) @ ds)"
    by (rule Cons.IH [OF ds])
  finally show ?case by simp
qed

lemma peek_1:
  "index < length inp \<Longrightarrow> peek inp index (Suc 0) = Some (take 1 (drop (index + 1) inp))"
  by (simp add: peek_def)

lemma toLowerCase_e: "ex = CHR ''e'' \<or> ex = CHR ''E'' \<Longrightarrow> toLowerCase ex = CHR ''e''"
proof -
  have "toLowerCase (CHR ''E'') = CHR ''e''" "toLowerCase (CHR ''e'') = CHR ''e''"
    by code_simp+
  then show "ex = CHR ''e'' \<or> ex = CHR ''E'' \<Longrightarrow> toLowerCase ex = CHR ''e''" by auto
qed

lemma isNumber_e: "\<not> isNumber (Some ''e'')"
  by (simp add: isNumber_char)

lemma readNumber_loop_sign:
  assumes ex: "ex = CHR ''e'' \<or> ex = CHR ''E''"
    and sg: "sg = CHR ''+'' \<or> sg = CHR ''-''"
    and rest: "rest = [] \<or> \<not> isNumber (Some [hd rest])"
  shows "readNumber_loop (p @ ex # sg # rest) (length p) number = Inl InvalidExponent"
proof -
  let ?inp = "p @ ex # sg # rest"
  have sgl: "toLowerCase sg = sg" using sg by (auto simp: toLowerCase_def)
  have sgn: "\<not> isNumber (Some [sg])" "sg \<noteq> CHR ''.''" "sg \<noteq> CHR ''e''" "isExpOperator (Some [sg])"
    using sg by (auto simp: isNumber_char isExpOperator_def)
  have nx: "\<not> truthy_string (Some (take 1 rest)) \<or> \<not> isNumber (Some (take 1 rest))"
    using rest by (cases rest) (auto simp: truthy_string_def)
  have "readNumber_loop ?inp (length p) number =
        readNumber_loop ?inp (length p + 1) (number @ ''e'')"
    by (subst readNumber_loop.simps)
      (simp add: Let_def toLowerCase_e [OF ex] isNumber_e peek_1 sgn)
  also have "\<dots> = Inl InvalidExponent"
    using nx
    by (subst readNumber_loop.simps)
      (auto simp add: Let_def nth_append sgl sgn peek_1)
  finally show ?thesis .
qed

lemma readNumber_loop_stop:
  assumes ex: "ex = CHR ''e'' \<or> ex = CHR ''E''"
    and r: "r = [] \<or> \<not> isExpOperator (Some [hd r])"
    and number: "number = [] \<or> last number \<noteq> CHR ''e''"
  shows "readNumber_loop (p @ ex # r) (length p) number = Inr (length p, number)"
proof -
  have nx: "\<not> isExpOperator (Some (take 1 r))"
    using r by (cases r) (auto simp: isExpOperator_def isNumber_def)
  show ?thesis
    using nx number
    by (subst readNumber_loop.simps)
      (auto simp add: Let_def toLowerCase_e [OF ex] isNumber_e peek_1)
qed

lemma is_mantissa_last: "is_mantissa ds \<Longrightarrow> ds = [] \<or> last ds \<noteq> CHR ''e''"
  by (induction ds) (auto simp: is_mantissa_Cons isNumber_char)

lemma number_start_nth:
  assumes "number_start m"
  shows "length pre < length (pre @ m @ post)"
    and "isNumber (Some [(pre @ m @ post) ! length pre]) \<or>
         ((pre @ m @ post) ! length pre = CHR ''.'' \<and>
          isNumber (peek (pre @ m @ post) (length pre) 1))"
proof -
  from assms obtain c r where m: "m = c # r" by (cases m) (auto simp: number_start_def)
  show "length pre < length (pre @ m @ post)" by (simp add: m)
  show "isNumber (Some [(pre @ m @ post) ! length pre]) \<or>
         ((pre @ m @ post) ! length pre = CHR ''.'' \<and>
          isNumber (peek (pre @ m @ post) (length pre) 1))"
  proof (cases "CHR ''0'' \<le> c \<and> c \<le> CHR ''9''")
    case True
    then show ?thesis by (simp add: m isNumber_char)
  next
    case False
    with assms m obtain d r' where r: "r = d # r'" and d: "CHR ''0'' \<le> d \<and> d \<le> CHR ''9''"
      and c: "c = CHR ''.''"
      by (cases r) (auto simp: number_start_def)
    have "peek (pre @ m @ post) (length pre) 1 = Some [d]"
      by (simp add: peek_def m r)
    with d c show ?thesis by (simp add: m isNumber_char)
  qed
qed

lemma lex_loop_number:
  assumes "index < length inp"
    and "isNumber (Some [inp ! index]) \<or>
         (inp ! index = CHR ''.'' \<and> isNumber (peek inp index 1))"
  shows "lex_loop inp index tokens =
     (case readNumber inp index tokens of
        Inl e \<Rightarrow> Inl e | Inr (index', tokens') \<Rightarrow> lex_loop inp index' tokens')"
  using assms by (subst lex_loop.simps) (simp add: lex_step_def)

lemma lex_loop_invalid_exponent:
  assumes m: "is_mantissa m" "number_start m" and ex: "ex = CHR ''e'' \<or> ex = CHR ''E''"
    and sg: "sg = CHR ''+'' \<or> sg = CHR ''-''"
    and rest: "rest = [] \<or> \<not> isNumber (Some [hd rest])"
  shows "lex_loop (pre @ m @ ex # sg # rest) (length pre) tokens = Inl InvalidExponent"
proof -
  let ?inp = "pre @ m @ ex # sg # rest"
  have "readNumber_loop ?inp (length pre) [] =
        readNumber_loop ?inp (length pre + length m) ([] @ m)"
    by (rule readNumber_loop_mantissa [OF m(1)])
  also have "\<dots> = readNumber_loop ((pre @ m) @ ex # sg # rest) (length (pre @ m)) m"
    by simp
  also have "\<dots> = Inl InvalidExponent"
    by (rule readNumber_loop_sign [OF ex sg rest])
  finally have rn: "readNumber ?inp (length pre) tokens = Inl InvalidExponent"
    by (simp add: readNumber_def)
  have "lex_loop ?inp (length pre) tokens =
     (case readNumber ?inp (length pre) tokens of
        Inl e \<Rightarrow> Inl e | Inr (index', tokens') \<Rightarrow> lex_loop ?inp index' tokens')"
    by (rule lex_loop_number [OF number_start_nth [OF m(2)]])
  then show ?thesis by (simp only: rn sum.case)
qed

lemma readNumber_stops_before_e:
  assumes m: "is_mantissa m" and ex: "ex = CHR ''e'' \<or> ex = CHR ''E''"
    and q: "q = [] \<or> \<not> isExpOperator (Some [hd q])"
  shows "readNumber (p @ m @ ex # q) (length p) toks =
      Inr (length p + length m, toks @ [number_token m])"
proof -
  let ?inp = "p @ m @ ex # q"
  have "readNumber_loop ?inp (length p) [] =
        readNumber_loop ?inp (length p + length m) ([] @ m)"
    by (rule readNumber_loop_mantissa [OF m])
  also have "\<dots> = readNumber_loop ((p @ m) @ ex # q) (length (p @ m)) m"
    by simp
  also have "\<dots> = Inr (length (p @ m), m)"
    by (rule readNumber_loop_stop [OF ex q is_mantissa_last [OF m]])
  finally show ?thesis by (simp add: readNumber_def number_token_def)
qed

lemma readIdentifier_loop_prefix:
  "readIdentifier_loop inp index ident = (i, n) \<Longrightarrow> \<exists>s. n = ident @ s"
proof (induction inp index ident rule: readIdentifier_loop.induct)
  case (1 inp index ident)
  note IH = "1.IH" and prems = "1.prems"
  show ?case
  proof (cases "index < length inp \<and>
      (isIdentifier (Some [inp ! index]) \<or> isNumber (Some [inp ! index]))")
    case False
    with prems have "n = ident"
      by (subst (asm) readIdentifier_loop.simps) (auto simp: Let_def split: if_splits)
    then show ?thesis by simp
  next
    case True
    with prems have r: "readIdentifier_loop inp (index + 1) (ident @ [inp ! index]) = (i, n)"
      by (subst (asm) readIdentifier_loop.simps) (auto simp: Let_def)
    from True have lt: "index < length inp"
      and c: "isIdentifier (Some [inp ! index]) \<or> isNumber (Some [inp ! index])"
      by simp_all
    from IH [OF lt refl c r] obtain s where "n = (ident @ [inp ! index]) @ s" by blast
    then show ?thesis by simp
  qed
qed

lemma marker_identifier:
  assumes ex: "ex = CHR ''e'' \<or> ex = CHR ''E''"
  shows "isIdentifier (Some [ex])" "\<not> isNumber (Some [ex])" "ex \<noteq> CHR ''.''"
    "ex \<noteq> CHR 0x27" "ex \<noteq> CHR 0x22" "ex \<notin> set ''[],{}:.()?;''"
proof -
  have "isIdentifier (Some ''e'')" "isIdentifier (Some ''E'')"
    "\<not> isNumber (Some ''e'')" "\<not> isNumber (Some ''E'')"
    by code_simp+
  with ex show "isIdentifier (Some [ex])" "\<not> isNumber (Some [ex])" "ex \<noteq> CHR ''.''"
    "ex \<noteq> CHR 0x27" "ex \<noteq> CHR 0x22" "ex \<notin> set ''[],{}:.()?;''"
    by auto
qed

lemma lex_loop_marker:
  assumes ex: "ex = CHR ''e'' \<or> ex = CHR ''E''"
  shows "\<exists>i name. readIdentifier_loop (p @ ex # r) (length p) [] = (i, ex # name) \<and>
     lex_loop (p @ ex # r) (length p) toks =
       lex_loop (p @ ex # r) i (toks @ [identifier_token (ex # name)])"
proof -
  let ?inp = "p @ ex # r"
  note exid = marker_identifier [OF ex]
  obtain i n where rl: "readIdentifier_loop ?inp (length p + 1) [ex] = (i, n)"
    by (cases "readIdentifier_loop ?inp (length p + 1) [ex]") auto
  from readIdentifier_loop_prefix [OF rl] obtain name where n: "n = ex # name" by auto
  have "readIdentifier_loop ?inp (length p) [] = readIdentifier_loop ?inp (length p + 1) [ex]"
    using exid by (subst readIdentifier_loop.simps) (simp add: Let_def)
  with rl n have ri: "readIdentifier_loop ?inp (length p) [] = (i, ex # name)" by simp
  have "lex_step ?inp (length p) toks = Inr (readIdentifier ?inp (length p) toks)"
    using exid by (simp add: lex_step_def)
  then have "lex_loop ?inp (length p) toks =
      (case readIdentifier ?inp (length p) toks of
         (index', tokens') \<Rightarrow> lex_loop ?inp index' tokens')"
    by (subst lex_loop.simps) simp
  also have "\<dots> = lex_loop ?inp i (toks @ [identifier_token (ex # name)])"
    by (simp add: readIdentifier_def identifier_token_def ri)
  finally show ?thesis using ri by blast
qed

lemma lex_loop_stops_before_e:
  assumes m: "is_mantissa m" "number_start m" and ex: "ex = CHR ''e'' \<or> ex = CHR ''E''"
    and r: "r = [] \<or> \<not> isExpOperator (Some [hd r])"
  shows "\<exists>i name.
     readIdentifier_loop (pre @ m @ ex # r) (length pre + length m) [] = (i, ex # name) \<and>
     lex_loop (pre @ m @ ex # r) (length pre) tokens =
       lex_loop (pre @ m @ ex # r) i
         (tokens @ [number_token m, identifier_token (ex # name)])"
proof -
  let ?inp = "pre @ m @ ex # r"
  have "lex_loop ?inp (length pre) tokens =
     (case readNumber ?inp (length pre) tokens of
        Inl e \<Rightarrow> Inl e | Inr (index', tokens') \<Rightarrow> lex_loop ?inp index' tokens')"
    by (rule lex_loop_number [OF number_start_nth [OF m(2)]])
  then have 1: "lex_loop ?inp (length pre) tokens =
      lex_loop ?inp (length pre + length m) (tokens @ [number_token m])"
    by (simp only: readNumber_stops_before_e [OF m(1) ex r] sum.case prod.case)
  from lex_loop_marker [OF ex, of "pre @ m" r "tokens @ [number_token m]"]
  obtain i name where
    "readIdentifier_loop ((pre @ m) @ ex # r) (length (pre @ m)) [] = (i, ex # name)"
    "lex_loop ((pre @ m) @ ex # r) (length (pre @ m)) (tokens @ [number_token m]) =
       lex_loop ((pre @ m) @ ex # r) i
         ((tokens @ [number_token m]) @ [identifier_token (ex # name)])"
    by blast
  then have "readIdentifier_loop ?inp (length pre + length m) [] = (i, ex # name)"
    "lex_loop ?inp (length pre + length m) (tokens @ [number_token m]) =
       lex_loop ?inp i (tokens @ [number_token m, identifier_token (ex # name)])"
    by simp_all
  with 1 show ?thesis by auto
qed

lemma lex_mantissa_e:
  assumes m: "is_mantissa m" "number_start m" and ex: "ex = CHR ''e'' \<or> ex = CHR ''E''"
  shows "lex (m @ [ex]) = Inr [number_token m, identifier_token [ex]]"
proof -
  let ?inp = "m @ [ex]"
  note exid = marker_identifier [OF ex]
  from lex_loop_stops_before_e [OF m ex, of "[]" "[]" "[]"]
  obtain i name where ri: "readIdentifier_loop ?inp (length m) [] = (i, ex # name)"
    and ll: "lex_loop ?inp 0 [] = lex_loop ?inp i [number_token m, identifier_token (ex # name)]"
    by auto
  have "readIdentifier_loop ?inp (length m) [] = readIdentifier_loop ?inp (length m + 1) [ex]"
    using exid by (subst readIdentifier_loop.simps) (simp add: Let_def)
  also have "\<dots> = (length m + 1, [ex])"
    by (subst readIdentifier_loop.simps) simp
  finally have "i = length m + 1" "name = []" using ri by simp_all
  with ll have "lex ?inp = lex_loop ?inp (length m + 1) [number_token m, identifier_token [ex]]"
    by (simp add: lex_def)
  also have "\<dots> = Inr [number_token m, identifier_token [ex]]"
    by (subst lex_loop.simps) simp
  finally show ?thesis .
qed

text \<open>
  Claim C3, as amended. Whatever \<^verbatim>\<open>readNumber\<close> has read of a number so far: when it
  stands at an exponent marker (\<^verbatim>\<open>e\<close> or \<^verbatim>\<open>E\<close>) that is followed by a sign which no
  digit follows, it fails with \<^verbatim>\<open>Invalid exponent\<close>, and so does the lexer when its
  main loop stands at a number of digits and dots followed by such a marker and sign.
  When neither a sign nor a digit follows the marker (also at the end of the text),
  \<^verbatim>\<open>readNumber\<close> ends the number before the marker without an error, and the next
  token of the lexer is an identifier that starts with the marker; the text of a number
  and a marker alone lexes to a number and an identifier.
\<close>

theorem invalid_exponent_amended:
  assumes ex: "ex = CHR ''e'' \<or> ex = CHR ''E''"
  shows "((sg = CHR ''+'' \<or> sg = CHR ''-'') \<and> (rest = [] \<or> \<not> isNumber (Some [hd rest])) \<longrightarrow>
           readNumber_loop (p @ ex # sg # rest) (length p) number = Inl InvalidExponent)
       \<and> ((sg = CHR ''+'' \<or> sg = CHR ''-'') \<and> (rest = [] \<or> \<not> isNumber (Some [hd rest])) \<and>
           is_mantissa m \<and> number_start m \<longrightarrow>
           lex_loop (pre @ m @ ex # sg # rest) (length pre) tokens = Inl InvalidExponent)
       \<and> ((r = [] \<or> \<not> isExpOperator (Some [hd r])) \<and> (number = [] \<or> last number \<noteq> CHR ''e'') \<longrightarrow>
           readNumber_loop (p @ ex # r) (length p) number = Inr (length p, number))
       \<and> ((r = [] \<or> \<not> isExpOperator (Some [hd r])) \<and> is_mantissa m \<and> number_start m \<longrightarrow>
           (\<exists>i name.
              readIdentifier_loop (pre @ m @ ex # r) (length pre + length m) [] = (i, ex # name) \<and>
              lex_loop (pre @ m @ ex # r) (length pre) tokens =
                lex_loop (pre @ m @ ex # r) i
                  (tokens @ [number_token m, identifier_token (ex # name)])))
       \<and> (is_mantissa m \<and> number_start m \<longrightarrow>
           lex (m @ [ex]) = Inr [number_token m, identifier_token [ex]])"
proof (intro conjI impI)
  assume "(sg = CHR ''+'' \<or> sg = CHR ''-'') \<and> (rest = [] \<or> \<not> isNumber (Some [hd rest]))"
  then have sg: "sg = CHR ''+'' \<or> sg = CHR ''-''"
    and rest: "rest = [] \<or> \<not> isNumber (Some [hd rest])"
    by simp_all
  show "readNumber_loop (p @ ex # sg # rest) (length p) number = Inl InvalidExponent"
    by (rule readNumber_loop_sign [OF ex sg rest])
next
  assume "(sg = CHR ''+'' \<or> sg = CHR ''-'') \<and> (rest = [] \<or> \<not> isNumber (Some [hd rest])) \<and>
           is_mantissa m \<and> number_start m"
  then have sg: "sg = CHR ''+'' \<or> sg = CHR ''-''"
    and rest: "rest = [] \<or> \<not> isNumber (Some [hd rest])"
    and m: "is_mantissa m" "number_start m"
    by simp_all
  show "lex_loop (pre @ m @ ex # sg # rest) (length pre) tokens = Inl InvalidExponent"
    by (rule lex_loop_invalid_exponent [OF m ex sg rest])
next
  assume "(r = [] \<or> \<not> isExpOperator (Some [hd r])) \<and> (number = [] \<or> last number \<noteq> CHR ''e'')"
  then have r: "r = [] \<or> \<not> isExpOperator (Some [hd r])"
    and n: "number = [] \<or> last number \<noteq> CHR ''e''"
    by simp_all
  show "readNumber_loop (p @ ex # r) (length p) number = Inr (length p, number)"
    by (rule readNumber_loop_stop [OF ex r n])
next
  assume "(r = [] \<or> \<not> isExpOperator (Some [hd r])) \<and> is_mantissa m \<and> number_start m"
  then have r: "r = [] \<or> \<not> isExpOperator (Some [hd r])"
    and m: "is_mantissa m" "number_start m"
    by simp_all
  show "\<exists>i name.
      readIdentifier_loop (pre @ m @ ex # r) (length pre + length m) [] = (i, ex # name) \<and>
      lex_loop (pre @ m @ ex # r) (length pre) tokens =
        lex_loop (pre @ m @ ex # r) i
          (tokens @ [number_token m, identifier_token (ex # name)])"
    by (rule lex_loop_stops_before_e [OF m ex r])
next
  assume "is_mantissa m \<and> number_start m"
  then have m: "is_mantissa m" "number_start m" by simp_all
  show "lex (m @ [ex]) = Inr [number_token m, identifier_token [ex]]"
    by (rule lex_mantissa_e [OF m ex])
qed

theorem invalid_exponent_amended_witness:
  "lex ''1.5e+'' = Inl InvalidExponent
   \<and> lex ''.5E-'' = Inl InvalidExponent
   \<and> lex_loop ''a+12e-x'' 2 [] = Inl InvalidExponent
   \<and> readNumber_loop ''1e5e+'' 3 ''1e5'' = Inl InvalidExponent
   \<and> readNumber_loop ''1.2Ea'' 3 ''1.2'' = Inr (3, ''1.2'')
   \<and> lex ''1.2E'' = Inr [number_token ''1.2'', identifier_token ''E'']"
proof -
  have e: "CHR ''e'' = CHR ''e'' \<or> CHR ''e'' = CHR ''E''"
    and E: "CHR ''E'' = CHR ''e'' \<or> CHR ''E'' = CHR ''E''"
    by simp_all
  have m: "is_mantissa ''1.5''" "number_start ''1.5''" "is_mantissa ''.5''" "number_start ''.5''"
    "is_mantissa ''12''" "number_start ''12''" "is_mantissa ''1.2''" "number_start ''1.2''"
    by (simp_all add: is_mantissa_def number_start_def)
  have x: "\<not> isNumber (Some [hd ''x''])" "\<not> isExpOperator (Some [hd ''a''])"
    by code_simp+
  from invalid_exponent_amended [OF e, where sg = "CHR ''+''" and rest = "[]" and m = "''1.5''"
      and pre = "[]" and tokens = "[]"] m
  have 1: "lex ''1.5e+'' = Inl InvalidExponent"
    by (simp add: lex_def)
  from invalid_exponent_amended [OF E, where sg = "CHR ''-''" and rest = "[]" and m = "''.5''"
      and pre = "[]" and tokens = "[]"] m
  have 2: "lex ''.5E-'' = Inl InvalidExponent"
    by (simp add: lex_def)
  from invalid_exponent_amended [OF e, where sg = "CHR ''-''" and rest = "''x''" and m = "''12''"
      and pre = "''a+''" and tokens = "[]"] m x
  have 3: "lex_loop ''a+12e-x'' 2 [] = Inl InvalidExponent"
    by (simp add: eval_nat_numeral)
  from invalid_exponent_amended [OF e, where sg = "CHR ''+''" and rest = "[]" and p = "''1e5''"
      and number = "''1e5''"]
  have 4: "readNumber_loop ''1e5e+'' 3 ''1e5'' = Inl InvalidExponent"
    by (simp add: eval_nat_numeral)
  from invalid_exponent_amended [OF E, where r = "''a''" and p = "''1.2''"
      and number = "''1.2''" and m = "''1.2''"] m x
  have 5: "readNumber_loop ''1.2Ea'' 3 ''1.2'' = Inr (3, ''1.2'')"
    "lex ''1.2E'' = Inr [number_token ''1.2'', identifier_token ''E'']"
    by (simp_all add: eval_nat_numeral)
  from 1 2 3 4 5 show ?thesis by simp
qed

text \<open>
  Claim C3 as stated fails at the text \<^verbatim>\<open>1e\<close>, which the claim names: it lexes to the
  number \<^verbatim>\<open>1\<close> and the identifier \<^verbatim>\<open>e\<close>.
\<close>

theorem invalid_exponent_counterexample:
  "lex ''1e'' = Inr [\<lparr>tok_text = ''1'', tok_value = VNum (Num 1), tok_identifier = False\<rparr>,
                     \<lparr>tok_text = ''e'', tok_value = VUndefined, tok_identifier = True\<rparr>]"
  by code_simp

end
